theory Spec2Isabelle
  imports Main
begin

section \<open>Noteable: a line-oriented key/value store kept in a text file\<close>

text \<open>
  Shallow embedding of \<^verbatim>\<open>src/noteable.js\<close>.  A JavaScript string is a \<^typ>\<open>string\<close>, one
  \<^typ>\<open>char\<close> for each code unit, so the model covers the strings whose code units are
  below 256; the one-character separators \<^verbatim>\<open>'\n'\<close> and \<^verbatim>\<open>'='\<close> are characters.  The file system is a
  partial map from path to file content; \<^verbatim>\<open>path.resolve\<close> is taken as the identity (one
  working directory, one spelling per file) and the directory of every path exists, so
  that \<^verbatim>\<open>writeFileSync\<close> always succeeds.  \<^verbatim>\<open>undefined\<close> is \<^const>\<open>None\<close>.
\<close>

subsection \<open>String primitives of the host language\<close>

definition NL :: char where
  "NL = CHR 0x0A"

text \<open>\<^verbatim>\<open>s.split(c)\<close>: the pieces between the separators; never an empty array.\<close>

fun js_split :: "char \<Rightarrow> string \<Rightarrow> string list" where
  "js_split c [] = ['''']"
| "js_split c (x # xs) =
     (if x = c then [] # js_split c xs
      else (case js_split c xs of [] \<Rightarrow> [x # []] | y # ys \<Rightarrow> (x # y) # ys))"

text \<open>\<^verbatim>\<open>arr.join(c)\<close>.\<close>

fun join :: "char \<Rightarrow> string list \<Rightarrow> string" where
  "join c [] = []"
| "join c [x] = x"
| "join c (x # y # ys) = x @ c # join c (y # ys)"

text \<open>\<^verbatim>\<open>arr[i]\<close>: \<^verbatim>\<open>undefined\<close> beyond the end.\<close>

definition at :: "'a list \<Rightarrow> nat \<Rightarrow> 'a option" where
  "at xs i = (if i < length xs then Some (xs ! i) else None)"

definition startsWith :: "string \<Rightarrow> string \<Rightarrow> bool" where
  "startsWith s p = (take (length p) s = p)"

definition endsWith :: "string \<Rightarrow> string \<Rightarrow> bool" where
  "endsWith s p = (length p \<le> length s \<and> drop (length s - length p) s = p)"

definition js_includes :: "string \<Rightarrow> char \<Rightarrow> bool" where
  "js_includes s c = (c \<in> set s)"

definition lowerChar :: "char \<Rightarrow> char" where
  "lowerChar c =
     (let n = (of_char c :: nat)
      in if (65 \<le> n \<and> n \<le> 90) \<or> (192 \<le> n \<and> n \<le> 222 \<and> n \<noteq> 215)
         then char_of (n + 32) else c)"

definition toLowerCase :: "string \<Rightarrow> string" where
  "toLowerCase s = map lowerChar s"

text \<open>\<^verbatim>\<open>arr.findIndex(p)\<close>: \<^verbatim>\<open>-1\<close> is \<^const>\<open>None\<close>.  \<^verbatim>\<open>arr.find(p)\<close> is \<^const>\<open>List.find\<close>.\<close>

fun findIndex :: "('a \<Rightarrow> bool) \<Rightarrow> 'a list \<Rightarrow> nat option" where
  "findIndex P [] = None"
| "findIndex P (x # xs) = (if P x then Some 0 else map_option Suc (findIndex P xs))"

text \<open>
  \<^verbatim>\<open>parseInt(s)\<close> with no radix, after ECMA-262: leading white space is skipped, a sign is
  read, a \<^verbatim>\<open>0x\<close> prefix selects radix 16, and the longest run of digits is the value;
  no digit gives \<^verbatim>\<open>NaN\<close>, here \<^const>\<open>None\<close>.  The result is kept as an exact integer: the
  source only compares it with 1, and rounding to a double is monotone and keeps 1 and 2.
\<close>

definition isWhiteSpace :: "char \<Rightarrow> bool" where
  "isWhiteSpace c = ((of_char c :: nat) \<in> {9, 10, 11, 12, 13, 32, 160})"

definition digitValue :: "char \<Rightarrow> nat option" where
  "digitValue c =
     (let n = (of_char c :: nat)
      in if 48 \<le> n \<and> n \<le> 57 then Some (n - 48)
         else if 97 \<le> n \<and> n \<le> 122 then Some (n - 87)
         else if 65 \<le> n \<and> n \<le> 90 then Some (n - 55)
         else None)"

definition isDigit :: "nat \<Rightarrow> char \<Rightarrow> bool" where
  "isDigit R c = (case digitValue c of None \<Rightarrow> False | Some d \<Rightarrow> d < R)"

definition digitsValue :: "nat \<Rightarrow> string \<Rightarrow> nat" where
  "digitsValue R Z = foldl (\<lambda>a c. a * R + (case digitValue c of None \<Rightarrow> 0 | Some d \<Rightarrow> d)) 0 Z"

definition parseInt :: "string \<Rightarrow> int option" where
  "parseInt inputString =
     (let S = dropWhile isWhiteSpace inputString;
          sign = (case S of [] \<Rightarrow> (1 :: int) | c # r \<Rightarrow> if c = CHR ''-'' then - 1 else 1);
          S1 = (case S of [] \<Rightarrow> S | c # r \<Rightarrow> if c = CHR ''+'' \<or> c = CHR ''-'' then r else S);
          hex = (take 2 S1 = ''0x'' \<or> take 2 S1 = ''0X'');
          R = (if hex then 16 else 10);
          S2 = (if hex then drop 2 S1 else S1);
          Z = takeWhile (isDigit R) S2
      in if Z = [] then None else Some (sign * int (digitsValue R Z)))"

subsection \<open>The file system\<close>

type_synonym filesystem = "string \<rightharpoonup> string"

definition existsSync :: "filesystem \<Rightarrow> string \<Rightarrow> bool" where
  "existsSync fs p = (fs p \<noteq> None)"

definition writeFileSync :: "filesystem \<Rightarrow> string \<Rightarrow> string \<Rightarrow> filesystem" where
  "writeFileSync fs p txt = fs(p \<mapsto> txt)"

definition readFileSync :: "filesystem \<Rightarrow> string \<Rightarrow> string option" where
  "readFileSync fs p = fs p"

subsection \<open>Settings, the store object, errors and values\<close>

text \<open>An absent field of the settings object is \<^const>\<open>None\<close>.\<close>

record settings =
  filePath :: "string option"
  autoParse :: "bool option"
  throwError :: "bool option"

text \<open>The fields \<^verbatim>\<open>this.filePath\<close>, \<^verbatim>\<open>this.notes\<close>, \<^verbatim>\<open>this.autoParse\<close>, \<^verbatim>\<open>this.throwError\<close>
  and \<^verbatim>\<open>this.noteArray\<close>.\<close>

record Noteable =
  this_filePath :: string
  this_notes :: string
  this_autoParse :: bool
  this_throwError :: bool
  noteArray :: "string list"

text \<open>One constructor for each \<^verbatim>\<open>throw new Error(...)\<close> of the source, carrying what
  the message interpolates; \<open>ENOENT\<close> is a read of a file that is not there.\<close>

datatype error =
    InvalidExtension string
  | InvalidLine nat
  | KeyNotFound string
  | NoNoteFound string
  | DuplicateKey string
  | KeyExists string
  | ENOENT string

text \<open>What \<^verbatim>\<open>get\<close> hands back: \<^verbatim>\<open>undefined\<close>, a raw string, or whatever the external
  \<^verbatim>\<open>auto-parse\<close> package makes of its argument.  That package is not part of the
  repository; it is a parameter \<open>ap\<close> of the operations that call it.\<close>

datatype 'p jsval = Undefined | Str string | Parsed 'p

definition raw :: "string option \<Rightarrow> 'p jsval" where
  "raw x = (case x of None \<Rightarrow> Undefined | Some s \<Rightarrow> Str s)"

text \<open>\<^verbatim>\<open>note.split('=')[0]\<close> and \<^verbatim>\<open>note.split('=')[1]\<close>.\<close>

definition keyOf :: "string \<Rightarrow> string option" where
  "keyOf note = at (js_split CHR ''='' note) 0"

definition valueOf :: "string \<Rightarrow> string option" where
  "valueOf note = at (js_split CHR ''='' note) 1"

text \<open>Truthiness of the result of \<^verbatim>\<open>find\<close>: \<^verbatim>\<open>undefined\<close> and the empty string are falsy.\<close>

definition truthy :: "string option \<Rightarrow> bool" where
  "truthy x = (case x of None \<Rightarrow> False | Some s \<Rightarrow> s \<noteq> [])"

subsection \<open>The constructor and \<^verbatim>\<open>check\<close>\<close>

definition invalidLine :: "string \<Rightarrow> bool" where
  "invalidLine line =
     ((\<not> startsWith line ''#'' \<and> \<not> js_includes line CHR ''='' \<and> \<not> length line \<le> 1)
      \<or> length (js_split CHR ''='' line) > 2)"

definition check :: "Noteable \<Rightarrow> filesystem \<Rightarrow> error + filesystem" where
  "check this fs =
     (case findIndex invalidLine (noteArray this) of
        Some err \<Rightarrow> Inl (InvalidLine (err + 1))
      | None \<Rightarrow>
          (let data = filter (\<lambda>line. length line > 1) (noteArray this)
           in Inr (writeFileSync fs (this_filePath this) (join NL data))))"

text \<open>The first statement of the constructor: an absent or empty path, or the word
  \<^verbatim>\<open>default\<close> in any case, stands for \<^verbatim>\<open>./note.noteable\<close>.\<close>

definition defaultPath :: string where
  "defaultPath = ''./note.noteable''"

definition effectivePath :: "settings \<Rightarrow> string" where
  "effectivePath st =
     (case filePath st of
        None \<Rightarrow> defaultPath
      | Some p \<Rightarrow> if p = [] \<or> toLowerCase p = ''default'' then defaultPath else p)"

text \<open>The constructor returns the file system as well when it throws: the file it
  creates at the start stays.\<close>

definition constructor :: "settings \<Rightarrow> filesystem \<Rightarrow> (error + Noteable) \<times> filesystem" where
  "constructor st fs =
     (let p = effectivePath st;
          fs1 = (if \<not> existsSync fs p then writeFileSync fs p [] else fs)
      in if \<not> endsWith p ''.noteable'' then (Inl (InvalidExtension p), fs1)
         else (case readFileSync fs1 p of
                 None \<Rightarrow> (Inl (ENOENT p), fs1)
               | Some txt \<Rightarrow>
                   (let this = \<lparr> this_filePath = p, this_notes = txt,
                                 this_autoParse = (case autoParse st of None \<Rightarrow> True | Some b \<Rightarrow> b),
                                 this_throwError = (case throwError st of None \<Rightarrow> False | Some b \<Rightarrow> b),
                                 noteArray = js_split NL txt \<rparr>
                    in (case check this fs1 of
                          Inl e \<Rightarrow> (Inl e, fs1)
                        | Inr fs2 \<Rightarrow> (Inr this, fs2)))))"

subsection \<open>The operations\<close>

text \<open>A method that throws has changed nothing before the throw, so a method returns
  either the error or the store and the file system after it.\<close>

definition has :: "Noteable \<Rightarrow> string \<Rightarrow> bool" where
  "has this key = (if truthy (find (\<lambda>note. keyOf note = Some key) (noteArray this)) then True else False)"

definition keyCheck :: "Noteable \<Rightarrow> string \<Rightarrow> error + unit" where
  "keyCheck this key =
     (if \<not> truthy (find (\<lambda>note. keyOf note = Some key) (noteArray this))
      then (if this_throwError this then Inl (KeyNotFound key) else Inr ())
      else Inr ())"

definition parsedAbove1 :: "string \<Rightarrow> bool" where
  "parsedAbove1 line = (case parseInt line of None \<Rightarrow> False | Some n \<Rightarrow> n > 1)"

definition get :: "(string option \<Rightarrow> 'p) \<Rightarrow> Noteable \<Rightarrow> string \<Rightarrow> error + 'p jsval" where
  "get ap this key =
     (case keyCheck this key of
        Inl e \<Rightarrow> Inl e
      | Inr u \<Rightarrow>
          (let found = find (\<lambda>note. keyOf note = Some key) (noteArray this)
           in if \<not> truthy found \<and> this_throwError this then Inl (NoNoteFound key)
              else if \<not> truthy found then Inr Undefined
              else (case found of
                      None \<Rightarrow> Inr Undefined
                    | Some v \<Rightarrow>
                        if parsedAbove1 v
                        then (if this_throwError this then Inl (DuplicateKey key) else Inr Undefined)
                        else Inr (if this_autoParse this then Parsed (ap (valueOf v))
                                  else raw (valueOf v)))))"

definition set_note :: "Noteable \<Rightarrow> filesystem \<Rightarrow> string \<Rightarrow> string \<Rightarrow> error + Noteable \<times> filesystem" where
  "set_note this fs key v =
     (if has this key
      then (if this_throwError this then Inl (KeyExists key) else Inr (this, fs))
      else (let data = noteArray this @ [key @ CHR ''='' # v]
            in Inr (this\<lparr>noteArray := data\<rparr>, writeFileSync fs (this_filePath this) (join NL data))))"

definition remove_note :: "Noteable \<Rightarrow> filesystem \<Rightarrow> string \<Rightarrow> error + Noteable \<times> filesystem" where
  "remove_note this fs key =
     (case keyCheck this key of
        Inl e \<Rightarrow> Inl e
      | Inr u \<Rightarrow>
          (let data = filter (\<lambda>note. keyOf note \<noteq> Some key) (js_split NL (this_notes this))
           in Inr (this, writeFileSync fs (this_filePath this) (join NL data))))"

definition change :: "Noteable \<Rightarrow> filesystem \<Rightarrow> string \<Rightarrow> string \<Rightarrow> error + Noteable \<times> filesystem" where
  "change this fs key v =
     (case keyCheck this key of
        Inl e \<Rightarrow> Inl e
      | Inr u \<Rightarrow>
          (let data = map (\<lambda>note. if keyOf note = Some key then key @ CHR ''='' # v else note)
                          (noteArray this)
           in Inr (this, writeFileSync fs (this_filePath this) (join NL data))))"

definition getAll :: "(string option \<Rightarrow> 'p) \<Rightarrow> Noteable \<Rightarrow> (string option \<times> 'p jsval) list" where
  "getAll ap this =
     map (\<lambda>note. (keyOf note,
                  if this_autoParse this then Parsed (ap (valueOf note)) else raw (valueOf note)))
         (noteArray this)"

definition removeAll_note :: "Noteable \<Rightarrow> filesystem \<Rightarrow> Noteable \<times> filesystem" where
  "removeAll_note this fs = (this, writeFileSync fs (this_filePath this) [])"

subsection \<open>Vocabulary of the specification\<close>

text \<open>The words the specification uses for parts of a line, written out directly
  rather than through \<^const>\<open>js_split\<close>: the portion before the first separator, the
  substring after it, and the number of \<^verbatim>\<open>=\<close> in a line.\<close>

definition beforeFirst :: "char \<Rightarrow> string \<Rightarrow> string" where
  "beforeFirst c s = takeWhile (\<lambda>x. x \<noteq> c) s"

definition afterFirst :: "char \<Rightarrow> string \<Rightarrow> string" where
  "afterFirst c s = drop (Suc (length (takeWhile (\<lambda>x. x \<noteq> c) s))) s"

definition countEq :: "string \<Rightarrow> nat" where
  "countEq line = length (filter (\<lambda>x. x = CHR ''='') line)"

text \<open>The grammar of a line as the specification words it: a comment, a blank line
  (of length at most 1), or a line with exactly one \<^verbatim>\<open>=\<close>.\<close>

definition specLine :: "string \<Rightarrow> bool" where
  "specLine line = (startsWith line ''#'' \<or> length line \<le> 1 \<or> countEq line = 1)"

text \<open>The same grammar with the comment restricted to at most one \<^verbatim>\<open>=\<close>.\<close>

definition acceptedLine :: "string \<Rightarrow> bool" where
  "acceptedLine line =
     (length line \<le> 1 \<or> (startsWith line ''#'' \<and> countEq line \<le> 1) \<or> countEq line = 1)"

section \<open>Facts about the primitives\<close>

lemmas run_defs =
  constructor_def effectivePath_def defaultPath_def toLowerCase_def lowerChar_def existsSync_def
  writeFileSync_def readFileSync_def endsWith_def startsWith_def js_includes_def check_def
  invalidLine_def NL_def has_def keyCheck_def get_def set_note_def remove_note_def change_def
  getAll_def removeAll_note_def keyOf_def valueOf_def at_def truthy_def raw_def parsedAbove1_def
  parseInt_def isWhiteSpace_def isDigit_def digitValue_def digitsValue_def Let_def

lemma js_split_not_Nil: "js_split c s \<noteq> []"
  by (induction s) (auto split: list.splits)

lemma js_split_unfold:
  "js_split c s = takeWhile (\<lambda>x. x \<noteq> c) s # (if c \<in> set s then js_split c (afterFirst c s) else [])"
proof (induction s)
  case Nil
  show ?case by simp
next
  case (Cons x xs)
  show ?case
  proof (cases "x = c")
    case True
    then show ?thesis by (simp add: afterFirst_def)
  next
    case False
    with Cons show ?thesis by (simp add: afterFirst_def)
  qed
qed

lemma length_js_split: "length (js_split c s) = Suc (length (filter (\<lambda>x. x = c) s))"
proof (induction s)
  case Nil
  show ?case by simp
next
  case (Cons x xs)
  then show ?case using js_split_not_Nil [of c xs]
    by (cases "js_split c xs") auto
qed

lemma js_split_no_sep: "c \<notin> set s \<Longrightarrow> js_split c s = [s]"
  by (induction s) auto

lemma js_split_key_value: "c \<notin> set k \<Longrightarrow> js_split c (k @ c # v) = k # js_split c v"
  by (induction k) auto

lemma keyOf_takeWhile: "keyOf line = Some (takeWhile (\<lambda>x. x \<noteq> CHR ''='') line)"
  unfolding keyOf_def at_def using js_split_unfold [of "CHR ''=''" line] by simp

lemma keyOf_beforeFirst: "keyOf line = Some (beforeFirst CHR ''='' line)"
  by (simp add: keyOf_takeWhile beforeFirst_def)

lemma valueOf_segment:
  "valueOf line =
     (if CHR ''='' \<in> set line
      then Some (beforeFirst CHR ''='' (afterFirst CHR ''='' line))
      else None)"
proof (cases "CHR ''='' \<in> set line")
  case True
  have "js_split CHR ''='' line =
          takeWhile (\<lambda>x. x \<noteq> CHR ''='') line # js_split CHR ''='' (afterFirst CHR ''='' line)"
    using True js_split_unfold [of "CHR ''=''" line] by simp
  moreover have "js_split CHR ''='' (afterFirst CHR ''='' line) =
      takeWhile (\<lambda>x. x \<noteq> CHR ''='') (afterFirst CHR ''='' line) #
      (if CHR ''='' \<in> set (afterFirst CHR ''='' line)
       then js_split CHR ''='' (afterFirst CHR ''='' (afterFirst CHR ''='' line)) else [])"
    by (rule js_split_unfold)
  ultimately show ?thesis using True by (simp add: valueOf_def at_def beforeFirst_def)
next
  case False
  then show ?thesis by (simp add: valueOf_def at_def js_split_no_sep)
qed

lemma keyOf_line: "CHR ''='' \<notin> set k \<Longrightarrow> keyOf (k @ CHR ''='' # v) = Some k"
  by (simp add: keyOf_def at_def js_split_key_value)

lemma valueOf_line:
  "CHR ''='' \<notin> set k \<Longrightarrow> CHR ''='' \<notin> set v \<Longrightarrow> valueOf (k @ CHR ''='' # v) = Some v"
  by (simp add: valueOf_def at_def js_split_key_value js_split_no_sep)

lemma find_append:
  "find P (xs @ ys) = (case find P xs of None \<Rightarrow> find P ys | Some x \<Rightarrow> Some x)"
  by (induction xs) auto

lemma find_None_iff_set: "find P xs = None \<longleftrightarrow> (\<forall>x\<in>set xs. \<not> P x)"
  by (induction xs) auto

lemma find_Some_D: "find P xs = Some x \<Longrightarrow> P x \<and> x \<in> set xs"
  by (induction xs) (auto split: if_splits)

lemma findIndex_None_iff: "findIndex P xs = None \<longleftrightarrow> (\<forall>x\<in>set xs. \<not> P x)"
  by (induction xs) auto

lemma findIndex_Some_D:
  "findIndex P xs = Some i \<Longrightarrow> i < length xs \<and> P (xs ! i) \<and> (\<forall>j<i. \<not> P (xs ! j))"
proof (induction xs arbitrary: i)
  case Nil
  then show ?case by simp
next
  case (Cons x xs)
  show ?case
  proof (cases "P x")
    case True
    with Cons.prems show ?thesis by simp
  next
    case False
    with Cons.prems obtain i' where i': "findIndex P xs = Some i'" "i = Suc i'"
      by auto
    from Cons.IH [OF i'(1)] False i'(2) show ?thesis
      by (auto simp: nth_Cons split: nat.splits)
  qed
qed

lemma countEq_0_iff: "countEq line = 0 \<longleftrightarrow> CHR ''='' \<notin> set line"
  by (auto simp: countEq_def filter_empty_conv)

lemma countEq_le_length: "countEq line \<le> length line"
  by (simp add: countEq_def)

lemma invalidLine_iff: "invalidLine line \<longleftrightarrow> \<not> acceptedLine line"
proof -
  have "length (js_split CHR ''='' line) = Suc (countEq line)"
    by (simp add: length_js_split countEq_def)
  moreover have "js_includes line CHR ''='' \<longleftrightarrow> countEq line \<noteq> 0"
    by (simp add: js_includes_def countEq_0_iff)
  moreover have "countEq line \<le> length line"
    by (rule countEq_le_length)
  ultimately show ?thesis
    unfolding invalidLine_def acceptedLine_def by auto
qed

lemma beforeFirst_no_sep: "c \<notin> set s \<Longrightarrow> beforeFirst c s = s"
  by (auto simp: beforeFirst_def takeWhile_eq_all_conv)

lemma has_iff_find:
  "has this key \<longleftrightarrow>
     (\<exists>line. find (\<lambda>l. beforeFirst CHR ''='' l = key) (noteArray this) = Some line \<and> line \<noteq> [])"
  by (auto simp: has_def truthy_def keyOf_beforeFirst split: option.splits)

text \<open>The constructor on a path with the right extension: the text it reads is the
  file's, or empty when it has just created the file.\<close>

lemma constructor_read:
  assumes ext: "endsWith (effectivePath st) ''.noteable''"
    and rd: "content = (case fs (effectivePath st) of None \<Rightarrow> [] | Some t \<Rightarrow> t)"
  shows "constructor st fs =
     (case findIndex invalidLine (js_split NL content) of
        Some n \<Rightarrow> (Inl (InvalidLine (n + 1)), fs)
      | None \<Rightarrow>
          (Inr \<lparr>this_filePath = effectivePath st, this_notes = content,
                this_autoParse = (case autoParse st of None \<Rightarrow> True | Some b \<Rightarrow> b),
                this_throwError = (case throwError st of None \<Rightarrow> False | Some b \<Rightarrow> b),
                noteArray = js_split NL content\<rparr>,
           fs(effectivePath st \<mapsto>
                join NL (filter (\<lambda>line. length line > 1) (js_split NL content)))))"
proof (cases "fs (effectivePath st)")
  case None
  then have t: "content = []" using rd by simp
  have "findIndex invalidLine (js_split NL []) = None"
    by (simp add: invalidLine_def js_includes_def startsWith_def)
  then show ?thesis
    using None ext t
    by (simp add: constructor_def Let_def existsSync_def writeFileSync_def readFileSync_def
        check_def)
next
  case (Some t)
  then have t: "content = t" using rd by simp
  show ?thesis
    using Some ext t
    by (simp add: constructor_def Let_def existsSync_def writeFileSync_def readFileSync_def
        check_def split: option.splits)
qed

lemma split_at_first:
  "c \<in> set s \<Longrightarrow> s = beforeFirst c s @ c # afterFirst c s"
proof (induction s)
  case Nil
  then show ?case by simp
next
  case (Cons x xs)
  then show ?case
    by (cases "x = c") (auto simp: beforeFirst_def afterFirst_def)
qed

lemma countEq_append: "countEq (xs @ ys) = countEq xs + countEq ys"
  by (simp add: countEq_def)

lemma countEq_Cons_eq: "countEq (CHR ''='' # xs) = Suc (countEq xs)"
  by (simp add: countEq_def)

lemma afterFirst_single:
  assumes "countEq line = 1"
  shows "CHR ''='' \<in> set line \<and> CHR ''='' \<notin> set (afterFirst CHR ''='' line)"
proof -
  have m: "CHR ''='' \<in> set line"
    using assms countEq_0_iff [of line] by auto
  from split_at_first [OF m]
  have "countEq line =
      countEq (beforeFirst CHR ''='' line) + Suc (countEq (afterFirst CHR ''='' line))"
    using countEq_append [of "beforeFirst CHR ''='' line" "CHR ''='' # afterFirst CHR ''='' line"]
      countEq_Cons_eq [of "afterFirst CHR ''='' line"]
    by simp
  with assms have "countEq (afterFirst CHR ''='' line) = 0" by simp
  with m show ?thesis by (simp add: countEq_0_iff)
qed

lemma js_split_elems: "x \<in> set (js_split c s) \<Longrightarrow> c \<notin> set x"
proof (induction s arbitrary: x)
  case Nil
  then show ?case by simp
next
  case (Cons a s)
  show ?case
  proof (cases "a = c")
    case True
    with Cons show ?thesis by auto
  next
    case False
    obtain y ys where r: "js_split c s = y # ys"
      using js_split_not_Nil [of c s] by (cases "js_split c s") auto
    with False Cons.prems have "x = a # y \<or> x \<in> set ys" by auto
    then show ?thesis
    proof
      assume "x = a # y"
      moreover have "c \<notin> set y" using Cons.IH [of y] r by simp
      ultimately show ?thesis using False by auto
    next
      assume "x \<in> set ys"
      then show ?thesis using Cons.IH [of x] r by simp
    qed
  qed
qed

lemma js_split_join:
  "\<forall>x\<in>set xs. c \<notin> set x \<Longrightarrow> js_split c (join c xs) = (if xs = [] then [''''] else xs)"
proof (induction c xs rule: join.induct)
  case (1 c)
  show ?case by simp
next
  case (2 c x)
  then show ?case by (simp add: js_split_no_sep)
next
  case (3 c x y ys)
  then show ?case by (simp add: js_split_key_value)
qed

lemma kept_line_written:
  assumes "line \<in> set (js_split NL content)" and "1 < length line"
  shows "line \<in> set (js_split NL (join NL (filter (\<lambda>l. 1 < length l) (js_split NL content))))"
proof -
  let ?data = "filter (\<lambda>l. 1 < length l) (js_split NL content)"
  have m: "line \<in> set ?data" using assms by simp
  have "\<forall>x\<in>set ?data. NL \<notin> set x"
    using js_split_elems by auto
  then have "js_split NL (join NL ?data) = (if ?data = [] then [''''] else ?data)"
    by (rule js_split_join)
  moreover have "?data \<noteq> []" using assms by (auto simp: filter_empty_conv)
  ultimately show ?thesis using m by simp
qed





section \<open>The claims\<close>

subsection \<open>C1: \<^verbatim>\<open>set\<close> followed by \<^verbatim>\<open>get\<close>\<close>

text \<open>
  C1, as stated, fails.  A fresh store is built on a path that has no file; the key
  \<^verbatim>\<open>2021\<close> is absent and neither it nor the value \<^verbatim>\<open>x\<close> holds a \<^verbatim>\<open>=\<close> or a newline.
  \<^verbatim>\<open>set('2021', 'x')\<close> appends the line, and \<^verbatim>\<open>get('2021')\<close> then gives \<^verbatim>\<open>undefined\<close>, not
  \<^verbatim>\<open>'x'\<close>: \<^verbatim>\<open>parseInt\<close> of the line is 2021, which is above 1.
\<close>

theorem set_then_get_numeric_key_counterexample:
  "constructor \<lparr>filePath = Some ''n.noteable'', autoParse = Some False, throwError = None\<rparr> Map.empty =
     (Inr \<lparr>this_filePath = ''n.noteable'', this_notes = [], this_autoParse = False,
           this_throwError = False, noteArray = ['''']\<rparr>, [''n.noteable'' \<mapsto> []])
   \<and> has \<lparr>this_filePath = ''n.noteable'', this_notes = [], this_autoParse = False,
           this_throwError = False, noteArray = ['''']\<rparr> ''2021'' = False
   \<and> CHR ''='' \<notin> set ''2021'' \<and> NL \<notin> set ''2021'' \<and> CHR ''='' \<notin> set ''x'' \<and> NL \<notin> set ''x''
   \<and> set_note \<lparr>this_filePath = ''n.noteable'', this_notes = [], this_autoParse = False,
           this_throwError = False, noteArray = ['''']\<rparr> [''n.noteable'' \<mapsto> []] ''2021'' ''x'' =
       Inr (\<lparr>this_filePath = ''n.noteable'', this_notes = [], this_autoParse = False,
             this_throwError = False, noteArray = ['''', ''2021=x'']\<rparr>,
            [''n.noteable'' \<mapsto> NL # ''2021=x''])
   \<and> get (\<lambda>x. x) \<lparr>this_filePath = ''n.noteable'', this_notes = [], this_autoParse = False,
             this_throwError = False, noteArray = ['''', ''2021=x'']\<rparr> ''2021'' = Inr Undefined
   \<and> get (\<lambda>x. x) \<lparr>this_filePath = ''n.noteable'', this_notes = [], this_autoParse = False,
             this_throwError = False, noteArray = ['''', ''2021=x'']\<rparr> ''2021'' \<noteq> Inr (Str ''x'')"
  by (simp add: run_defs)

text \<open>
  C1, amended: let no line of the store have \<open>k\<close> as the portion before its first \<^verbatim>\<open>=\<close>,
  let neither \<open>k\<close> nor \<open>v\<close> hold a \<^verbatim>\<open>=\<close>, and let \<^verbatim>\<open>parseInt\<close> of the line \<^verbatim>\<open>k=v\<close> not be
  above 1.  Then \<^verbatim>\<open>set(k, v)\<close> succeeds and \<^verbatim>\<open>get(k)\<close> on the store it leaves returns \<open>v\<close>:
  passed through auto-parse when \<^verbatim>\<open>autoParse\<close> is on, the raw string when it is off.
\<close>

theorem set_then_get_roundtrip:
  assumes absent: "\<forall>line\<in>set (noteArray this). keyOf line \<noteq> Some k"
    and k: "CHR ''='' \<notin> set k"
    and v: "CHR ''='' \<notin> set v"
    and p: "\<not> parsedAbove1 (k @ CHR ''='' # v)"
  shows "\<exists>this' fs'. set_note this fs k v = Inr (this', fs')
           \<and> get ap this' k = Inr (if this_autoParse this then Parsed (ap (Some v)) else Str v)"
proof -
  let ?P = "\<lambda>line. keyOf line = Some k"
  let ?line = "k @ CHR ''='' # v"
  let ?this' = "this\<lparr>noteArray := noteArray this @ [?line]\<rparr>"
  have none: "find ?P (noteArray this) = None"
    using absent by (simp add: find_None_iff_set)
  then have "\<not> has this k"
    by (simp add: has_def truthy_def)
  then have s: "set_note this fs k v =
      Inr (?this', writeFileSync fs (this_filePath this) (join NL (noteArray this @ [?line])))"
    by (simp add: set_note_def Let_def)
  have f: "find ?P (noteArray ?this') = Some ?line"
    using none k by (simp add: find_append keyOf_line)
  have "get ap ?this' k = Inr (if this_autoParse this then Parsed (ap (Some v)) else Str v)"
    using f p k v by (simp add: get_def keyCheck_def truthy_def Let_def valueOf_line raw_def)
  with s show ?thesis by blast
qed

theorem set_then_get_roundtrip_witness:
  "keyOf '''' \<noteq> Some ''years''
   \<and> CHR ''='' \<notin> set ''years'' \<and> CHR ''='' \<notin> set ''2022''
   \<and> \<not> parsedAbove1 ''years=2022''
   \<and> (\<exists>this' fs'.
         set_note \<lparr>this_filePath = ''n.noteable'', this_notes = [], this_autoParse = False,
                   this_throwError = False, noteArray = ['''']\<rparr> Map.empty ''years'' ''2022'' =
           Inr (this', fs')
         \<and> get (\<lambda>x. x) this' ''years'' = Inr (Str ''2022''))"
proof -
  let ?S = "\<lparr>this_filePath = ''n.noteable'', this_notes = [], this_autoParse = False,
             this_throwError = False, noteArray = ['''']\<rparr>"
  have a: "\<forall>line\<in>set (noteArray ?S). keyOf line \<noteq> Some ''years''"
    by (simp add: keyOf_def at_def)
  have k: "CHR ''='' \<notin> set ''years''" by simp
  have v: "CHR ''='' \<notin> set ''2022''" by simp
  have p: "\<not> parsedAbove1 (''years'' @ CHR ''='' # ''2022'')"
    by (simp add: run_defs)
  have e: "keyOf [] \<noteq> Some ''years''"
    by (simp add: keyOf_def at_def)
  from set_then_get_roundtrip [OF a k v p, of Map.empty "\<lambda>x. x"] e k v p
  show ?thesis by simp
qed

subsection \<open>C2: \<^verbatim>\<open>has\<close> after \<^verbatim>\<open>set\<close> and after \<^verbatim>\<open>remove\<close>\<close>

text \<open>The first half of C2 holds for a non-empty key without \<^verbatim>\<open>=\<close>: after a \<^verbatim>\<open>set\<close> that
  returns, \<^verbatim>\<open>has\<close> is true.\<close>

lemma has_after_set_note:
  assumes "CHR ''='' \<notin> set k" and "k \<noteq> []"
    and "set_note this fs k v = Inr (this', fs')"
  shows "has this' k"
proof (cases "has this k")
  case True
  with assms(3) show ?thesis by (auto simp: set_note_def split: if_splits)
next
  case False
  let ?P = "\<lambda>line. keyOf line = Some k"
  have "find ?P (noteArray this) = None"
  proof (cases "find ?P (noteArray this)")
    case None
    then show ?thesis .
  next
    case (Some l)
    then have "keyOf l = Some k" by (auto dest: find_Some_D)
    then have "l \<noteq> []" using assms(2) by (auto simp: keyOf_def at_def)
    with Some False show ?thesis by (simp add: has_def truthy_def)
  qed
  moreover have "noteArray this' = noteArray this @ [k @ CHR ''='' # v]"
    using False assms(3) by (auto simp: set_note_def Let_def)
  ultimately show ?thesis
    using assms(1) by (simp add: has_def truthy_def find_append keyOf_line)
qed

text \<open>
  C2, second half, at a concrete store.  The file holds \<^verbatim>\<open>a=1\<close>.  \<^verbatim>\<open>remove('a')\<close> writes the
  file without the line, yet leaves \<^verbatim>\<open>noteArray\<close> as it was, and \<^verbatim>\<open>has('a')\<close> on the store
  after the call is still true.
\<close>

theorem has_after_remove_still_true:
  "constructor \<lparr>filePath = Some ''n.noteable'', autoParse = None, throwError = None\<rparr>
     [''n.noteable'' \<mapsto> ''a=1''] =
     (Inr \<lparr>this_filePath = ''n.noteable'', this_notes = ''a=1'', this_autoParse = True,
           this_throwError = False, noteArray = [''a=1'']\<rparr>,
      [''n.noteable'' \<mapsto> ''a=1''])
   \<and> remove_note \<lparr>this_filePath = ''n.noteable'', this_notes = ''a=1'', this_autoParse = True,
           this_throwError = False, noteArray = [''a=1'']\<rparr> [''n.noteable'' \<mapsto> ''a=1''] ''a'' =
     Inr (\<lparr>this_filePath = ''n.noteable'', this_notes = ''a=1'', this_autoParse = True,
           this_throwError = False, noteArray = [''a=1'']\<rparr>, [''n.noteable'' \<mapsto> []])
   \<and> (case remove_note \<lparr>this_filePath = ''n.noteable'', this_notes = ''a=1'',
           this_autoParse = True, this_throwError = False, noteArray = [''a=1'']\<rparr>
           [''n.noteable'' \<mapsto> ''a=1''] ''a'' of
         Inl e \<Rightarrow> False
       | Inr (this', fs') \<Rightarrow> has this' ''a'' = True)"
  by (simp add: run_defs)

subsection \<open>C3: \<^verbatim>\<open>removeAll\<close>, then a new store on the same file\<close>

text \<open>
  C3 at a concrete store.  The file holds \<^verbatim>\<open>a=1\<close>; the store is built, \<^verbatim>\<open>removeAll\<close>
  empties the file, and a second store is built from the same path.  The empty text
  splits into the one line \<^verbatim>\<open>''\<close>, validation leaves it in \<^verbatim>\<open>noteArray\<close>, and \<^verbatim>\<open>getAll\<close>
  returns one entry (an empty key with value \<^verbatim>\<open>undefined\<close>), so its length is 1.
\<close>

theorem removeAll_reconstruct_getAll_length:
  "constructor \<lparr>filePath = Some ''n.noteable'', autoParse = Some False, throwError = None\<rparr>
     [''n.noteable'' \<mapsto> ''a=1''] =
     (Inr \<lparr>this_filePath = ''n.noteable'', this_notes = ''a=1'', this_autoParse = False,
           this_throwError = False, noteArray = [''a=1'']\<rparr>,
      [''n.noteable'' \<mapsto> ''a=1''])
   \<and> removeAll_note \<lparr>this_filePath = ''n.noteable'', this_notes = ''a=1'', this_autoParse = False,
           this_throwError = False, noteArray = [''a=1'']\<rparr> [''n.noteable'' \<mapsto> ''a=1''] =
     (\<lparr>this_filePath = ''n.noteable'', this_notes = ''a=1'', this_autoParse = False,
           this_throwError = False, noteArray = [''a=1'']\<rparr>, [''n.noteable'' \<mapsto> []])
   \<and> constructor \<lparr>filePath = Some ''n.noteable'', autoParse = Some False, throwError = None\<rparr>
     [''n.noteable'' \<mapsto> []] =
     (Inr \<lparr>this_filePath = ''n.noteable'', this_notes = [], this_autoParse = False,
           this_throwError = False, noteArray = ['''']\<rparr>,
      [''n.noteable'' \<mapsto> []])
   \<and> getAll (\<lambda>x. x) \<lparr>this_filePath = ''n.noteable'', this_notes = [], this_autoParse = False,
           this_throwError = False, noteArray = ['''']\<rparr> = [(Some [], Undefined)]
   \<and> length (getAll (\<lambda>x. x) \<lparr>this_filePath = ''n.noteable'', this_notes = [],
           this_autoParse = False, this_throwError = False, noteArray = ['''']\<rparr>) = 1"
  by (simp add: run_defs)

subsection \<open>C4: blank lines after construction\<close>

text \<open>
  C4 at a concrete file: \<^verbatim>\<open>a=1\<close>, an empty line, \<^verbatim>\<open>b=2\<close>.  The constructor writes the file
  back without the empty line, but \<^verbatim>\<open>noteArray\<close> keeps all three lines, and \<^verbatim>\<open>getAll\<close> has
  an entry for the empty one.
\<close>

theorem blank_line_kept_in_memory:
  "constructor \<lparr>filePath = Some ''n.noteable'', autoParse = Some False, throwError = None\<rparr>
     [''n.noteable'' \<mapsto> ''a=1'' @ NL # NL # ''b=2''] =
     (Inr \<lparr>this_filePath = ''n.noteable'', this_notes = ''a=1'' @ NL # NL # ''b=2'',
           this_autoParse = False, this_throwError = False,
           noteArray = [''a=1'', [], ''b=2'']\<rparr>,
      [''n.noteable'' \<mapsto> ''a=1'' @ NL # ''b=2''])
   \<and> getAll (\<lambda>x. x) \<lparr>this_filePath = ''n.noteable'', this_notes = ''a=1'' @ NL # NL # ''b=2'',
           this_autoParse = False, this_throwError = False,
           noteArray = [''a=1'', [], ''b=2'']\<rparr> =
       [(Some ''a'', Str ''1''), (Some [], Undefined), (Some ''b'', Str ''2'')]"
  by (simp add: run_defs)

subsection \<open>C5: the lines the constructor accepts\<close>

text \<open>
  C5, as stated, fails.  The line \<^verbatim>\<open>#a=b=c\<close> starts with \<^verbatim>\<open>#\<close>, so it is a comment of the
  grammar, and the constructor rejects the file as invalid at line 1: the test for more
  than one \<^verbatim>\<open>=\<close> applies to comments too.
\<close>

theorem comment_with_two_equals_counterexample:
  "specLine ''#a=b=c'' \<and> startsWith ''#a=b=c'' ''#''
   \<and> constructor \<lparr>filePath = Some ''n.noteable'', autoParse = None, throwError = None\<rparr>
       [''n.noteable'' \<mapsto> ''#a=b=c''] = (Inl (InvalidLine 1), [''n.noteable'' \<mapsto> ''#a=b=c''])"
  by (simp add: specLine_def countEq_def run_defs)

text \<open>
  C5, amended: on a path with the right extension, construction succeeds for every file
  each of whose lines is a comment starting with \<^verbatim>\<open>#\<close> that holds at most one \<^verbatim>\<open>=\<close>, a
  blank line (length at most 1), or a line with exactly one \<^verbatim>\<open>=\<close>; every comment line
  longer than one character is then kept verbatim, as a line of the store's sequence and
  as a line of the file written back.  For a file with a line outside that grammar
  construction fails with the 1-based number of the first such line.
\<close>

theorem constructor_accepts_grammar:
  assumes ext: "endsWith (effectivePath st) ''.noteable''"
    and rd: "content = (case fs (effectivePath st) of None \<Rightarrow> [] | Some t \<Rightarrow> t)"
  shows "((\<forall>line\<in>set (js_split NL content). acceptedLine line) \<longrightarrow>
            (\<exists>this fs' written. constructor st fs = (Inr this, fs')
               \<and> fs' (effectivePath st) = Some written
               \<and> (\<forall>line\<in>set (js_split NL content).
                     startsWith line ''#'' \<and> 1 < length line \<longrightarrow>
                       line \<in> set (noteArray this) \<and> line \<in> set (js_split NL written))))
       \<and> (\<not> (\<forall>line\<in>set (js_split NL content). acceptedLine line) \<longrightarrow>
            (\<exists>n. constructor st fs = (Inl (InvalidLine (n + 1)), fs)
               \<and> n < length (js_split NL content)
               \<and> \<not> acceptedLine (js_split NL content ! n)
               \<and> (\<forall>j<n. acceptedLine (js_split NL content ! j))))"
proof (cases "findIndex invalidLine (js_split NL content)")
  case None
  let ?store = "\<lparr>this_filePath = effectivePath st, this_notes = content,
                this_autoParse = (case autoParse st of None \<Rightarrow> True | Some b \<Rightarrow> b),
                this_throwError = (case throwError st of None \<Rightarrow> False | Some b \<Rightarrow> b),
                noteArray = js_split NL content\<rparr>"
  let ?written = "join NL (filter (\<lambda>line. length line > 1) (js_split NL content))"
  have ok: "\<forall>line\<in>set (js_split NL content). acceptedLine line"
    using None by (simp add: findIndex_None_iff invalidLine_iff)
  have c: "constructor st fs = (Inr ?store, fs(effectivePath st \<mapsto> ?written))"
    using constructor_read [where st=st and fs=fs and content=content, OF ext rd] None by simp
  have kept: "\<forall>line\<in>set (js_split NL content).
      startsWith line ''#'' \<and> 1 < length line \<longrightarrow>
        line \<in> set (noteArray ?store) \<and> line \<in> set (js_split NL ?written)"
    using kept_line_written by simp
  have "\<exists>this fs' written. constructor st fs = (Inr this, fs')
      \<and> fs' (effectivePath st) = Some written
      \<and> (\<forall>line\<in>set (js_split NL content).
            startsWith line ''#'' \<and> 1 < length line \<longrightarrow>
              line \<in> set (noteArray this) \<and> line \<in> set (js_split NL written))"
  proof (intro exI conjI)
    show "constructor st fs = (Inr ?store, fs(effectivePath st \<mapsto> ?written))" by (rule c)
    show "(fs(effectivePath st \<mapsto> ?written)) (effectivePath st) = Some ?written" by simp
    show "\<forall>line\<in>set (js_split NL content).
      startsWith line ''#'' \<and> 1 < length line \<longrightarrow>
        line \<in> set (noteArray ?store) \<and> line \<in> set (js_split NL ?written)" by (rule kept)
  qed
  with ok show ?thesis by blast
next
  case (Some n)
  from findIndex_Some_D [OF Some]
  have n: "n < length (js_split NL content)" "\<not> acceptedLine (js_split NL content ! n)"
    "\<forall>j<n. acceptedLine (js_split NL content ! j)"
    by (simp_all add: invalidLine_iff)
  from n(1,2) have bad: "\<not> (\<forall>line\<in>set (js_split NL content). acceptedLine line)"
    using nth_mem by blast
  have "constructor st fs = (Inl (InvalidLine (n + 1)), fs)"
    using constructor_read [where st=st and fs=fs and content=content, OF ext rd] Some by simp
  with n bad show ?thesis by blast
qed

theorem constructor_accepts_grammar_witness:
  "endsWith ''n.noteable'' ''.noteable''
   \<and> js_split NL (''#c=1'' @ NL # NL # ''a=1'') = [''#c=1'', '''', ''a=1'']
   \<and> acceptedLine ''#c=1'' \<and> acceptedLine '''' \<and> acceptedLine ''a=1''
   \<and> startsWith ''#c=1'' ''#'' \<and> 1 < length ''#c=1''
   \<and> (\<exists>this fs' written.
          constructor \<lparr>filePath = Some ''n.noteable'', autoParse = None, throwError = None\<rparr>
                 [''n.noteable'' \<mapsto> ''#c=1'' @ NL # NL # ''a=1''] = (Inr this, fs')
        \<and> fs' ''n.noteable'' = Some written
        \<and> ''#c=1'' \<in> set (noteArray this) \<and> ''#c=1'' \<in> set (js_split NL written))
   \<and> js_split NL (''a=1'' @ NL # ''stray'') = [''a=1'', ''stray'']
   \<and> \<not> acceptedLine ''stray''
   \<and> (\<exists>n. constructor \<lparr>filePath = Some ''n.noteable'', autoParse = None, throwError = None\<rparr>
                 [''n.noteable'' \<mapsto> ''a=1'' @ NL # ''stray''] =
                 (Inl (InvalidLine (n + 1)), [''n.noteable'' \<mapsto> ''a=1'' @ NL # ''stray''])
             \<and> n < 2 \<and> \<not> acceptedLine ([''a=1'', ''stray''] ! n))"
proof -
  let ?st = "\<lparr>filePath = Some ''n.noteable'', autoParse = None, throwError = None\<rparr>"
  let ?good = "''#c=1'' @ NL # NL # ''a=1''"
  let ?bad = "''a=1'' @ NL # ''stray''"
  have p: "effectivePath ?st = ''n.noteable''"
    by (simp add: effectivePath_def toLowerCase_def lowerChar_def)
  have e: "endsWith (effectivePath ?st) ''.noteable''"
    by (simp add: p endsWith_def)
  have g: "js_split NL ?good = [''#c=1'', '''', ''a=1'']"
    by (simp add: NL_def)
  have b: "js_split NL ?bad = [''a=1'', ''stray'']"
    by (simp add: NL_def)
  have a: "acceptedLine ''#c=1''" "acceptedLine ''''" "acceptedLine ''a=1''" "\<not> acceptedLine ''stray''"
    by (simp_all add: acceptedLine_def countEq_def startsWith_def)
  have h: "startsWith ''#c=1'' ''#''" "1 < length ''#c=1''"
    by (simp_all add: startsWith_def)
  have tg: "?good = (case [''n.noteable'' \<mapsto> ?good] (effectivePath ?st) of None \<Rightarrow> [] | Some t \<Rightarrow> t)"
    by (simp add: p)
  have tb: "?bad = (case [''n.noteable'' \<mapsto> ?bad] (effectivePath ?st) of None \<Rightarrow> [] | Some t \<Rightarrow> t)"
    by (simp add: p)
  have okg: "\<forall>line\<in>set (js_split NL ?good). acceptedLine line"
    unfolding g using a by simp
  from constructor_accepts_grammar
    [where st="?st" and fs="[''n.noteable'' \<mapsto> ?good]" and content="?good", OF e tg] okg
  obtain this fs' written where
    o: "constructor ?st [''n.noteable'' \<mapsto> ?good] = (Inr this, fs')"
      "fs' (effectivePath ?st) = Some written"
      "\<forall>line\<in>set (js_split NL ?good). startsWith line ''#'' \<and> 1 < length line \<longrightarrow>
          line \<in> set (noteArray this) \<and> line \<in> set (js_split NL written)"
    by blast
  have mem: "''#c=1'' \<in> set (js_split NL ?good)"
    unfolding g by simp
  from o(3) mem h have k: "''#c=1'' \<in> set (noteArray this)" "''#c=1'' \<in> set (js_split NL written)"
    by blast+
  from o(2) have f: "fs' ''n.noteable'' = Some written" by (simp add: p)
  from o(1) f k have one:
    "\<exists>this fs' written. constructor ?st [''n.noteable'' \<mapsto> ?good] = (Inr this, fs')
        \<and> fs' ''n.noteable'' = Some written
        \<and> ''#c=1'' \<in> set (noteArray this) \<and> ''#c=1'' \<in> set (js_split NL written)"
    by blast
  from constructor_accepts_grammar
    [where st="?st" and fs="[''n.noteable'' \<mapsto> ?bad]" and content="?bad", OF e tb]
  have two: "\<exists>n. constructor ?st [''n.noteable'' \<mapsto> ?bad] =
        (Inl (InvalidLine (n + 1)), [''n.noteable'' \<mapsto> ?bad])
      \<and> n < 2 \<and> \<not> acceptedLine ([''a=1'', ''stray''] ! n)"
    unfolding b using a by (auto simp: p)
  from e g b a h one two show ?thesis by (simp add: p)
qed

subsection \<open>C6: which lines \<^verbatim>\<open>has\<close> matches\<close>

text \<open>
  C6, as stated, fails.  The file holds the one comment line \<^verbatim>\<open>#note\<close>, which has no
  \<^verbatim>\<open>=\<close>; \<^verbatim>\<open>has('#note')\<close> on the store built from it is true.
\<close>

theorem has_comment_line_counterexample:
  "constructor \<lparr>filePath = Some ''n.noteable'', autoParse = None, throwError = None\<rparr>
       [''n.noteable'' \<mapsto> ''#note''] =
     (Inr \<lparr>this_filePath = ''n.noteable'', this_notes = ''#note'', this_autoParse = True,
           this_throwError = False, noteArray = [''#note'']\<rparr>, [''n.noteable'' \<mapsto> ''#note''])
   \<and> startsWith ''#note'' ''#'' \<and> CHR ''='' \<notin> set ''#note''
   \<and> has \<lparr>this_filePath = ''n.noteable'', this_notes = ''#note'', this_autoParse = True,
           this_throwError = False, noteArray = [''#note'']\<rparr> ''#note'' = True"
  by (simp add: run_defs)

text \<open>
  C6, amended: \<^verbatim>\<open>has(key)\<close> is true exactly when the first line whose portion before the
  first \<^verbatim>\<open>=\<close> (the whole line when it has none) equals \<open>key\<close> exists and is not the empty
  line; for a non-empty key that is exactly when some line has that portion equal to
  \<open>key\<close>.  Comment lines do match: when the sequence holds a comment line without \<^verbatim>\<open>=\<close>
  whose full text is \<open>key\<close>, \<^verbatim>\<open>has(key)\<close> is true.
\<close>

theorem has_characterisation:
  "(has this key \<longleftrightarrow>
      (\<exists>line. find (\<lambda>l. beforeFirst CHR ''='' l = key) (noteArray this) = Some line \<and> line \<noteq> []))
   \<and> (key \<noteq> [] \<longrightarrow>
        (has this key \<longleftrightarrow> (\<exists>line\<in>set (noteArray this). beforeFirst CHR ''='' line = key)))
   \<and> (key \<in> set (noteArray this) \<and> startsWith key ''#'' \<and> CHR ''='' \<notin> set key \<longrightarrow> has this key)"
proof -
  let ?P = "\<lambda>l. beforeFirst CHR ''='' l = key"
  have nonempty: "has this key \<longleftrightarrow> (\<exists>line\<in>set (noteArray this). ?P line)" if "key \<noteq> []"
  proof
    assume "has this key"
    then obtain line where "find ?P (noteArray this) = Some line"
      by (auto simp: has_iff_find)
    then show "\<exists>line\<in>set (noteArray this). ?P line"
      by (auto dest: find_Some_D)
  next
    assume "\<exists>line\<in>set (noteArray this). ?P line"
    then have "find ?P (noteArray this) \<noteq> None"
      by (simp add: find_None_iff_set)
    then obtain line where l: "find ?P (noteArray this) = Some line"
      by auto
    then have "?P line" by (auto dest: find_Some_D)
    with that have "line \<noteq> []" by (auto simp: beforeFirst_def)
    with l show "has this key" by (auto simp: has_iff_find)
  qed
  have comment: "has this key"
    if "key \<in> set (noteArray this)" "startsWith key ''#''" "CHR ''='' \<notin> set key"
  proof -
    from that(2) have "key \<noteq> []" by (auto simp: startsWith_def)
    moreover have "?P key" using that(3) by (simp add: beforeFirst_no_sep)
    ultimately show ?thesis using nonempty that(1) by blast
  qed
  show ?thesis using has_iff_find nonempty comment by blast
qed

theorem has_characterisation_witness:
  "''#note'' \<in> set [''#note'', ''a=1''] \<and> startsWith ''#note'' ''#'' \<and> CHR ''='' \<notin> set ''#note''
   \<and> has \<lparr>this_filePath = ''n.noteable'', this_notes = [], this_autoParse = True,
           this_throwError = False, noteArray = [''#note'', ''a=1'']\<rparr> ''#note''
   \<and> beforeFirst CHR ''='' ''a=1'' = ''a''
   \<and> has \<lparr>this_filePath = ''n.noteable'', this_notes = [], this_autoParse = True,
           this_throwError = False, noteArray = [''#note'', ''a=1'']\<rparr> ''a''"
proof -
  let ?S = "\<lparr>this_filePath = ''n.noteable'', this_notes = [], this_autoParse = True,
           this_throwError = False, noteArray = [''#note'', ''a=1'']\<rparr>"
  have m: "''#note'' \<in> set (noteArray ?S)" by simp
  have s: "startsWith ''#note'' ''#''" by (simp add: startsWith_def)
  have e: "CHR ''='' \<notin> set ''#note''" by simp
  have b: "beforeFirst CHR ''='' ''a=1'' = ''a''" by (simp add: beforeFirst_def)
  have a: "\<exists>line\<in>set (noteArray ?S). beforeFirst CHR ''='' line = ''a''"
    using b by simp
  have "has ?S ''#note''"
    using has_characterisation [of ?S "''#note''"] m s e by blast
  moreover have "has ?S ''a''"
    using has_characterisation [of ?S "''a''"] a by blast
  ultimately show ?thesis using s e b by simp
qed

subsection \<open>C7: what \<^verbatim>\<open>get\<close> returns for a key that is found\<close>

text \<open>
  C7, as stated, fails in its second half.  On a fresh store \<^verbatim>\<open>set('k', 'a=b')\<close> appends the
  line \<^verbatim>\<open>k=a=b\<close>.  \<^verbatim>\<open>parseInt\<close> of that line is \<^verbatim>\<open>NaN\<close>, the substring after its first \<^verbatim>\<open>=\<close>
  is \<^verbatim>\<open>a=b\<close>, and \<^verbatim>\<open>get('k')\<close> returns \<^verbatim>\<open>a\<close>.
\<close>

theorem get_two_equals_counterexample:
  "set_note \<lparr>this_filePath = ''n.noteable'', this_notes = [], this_autoParse = False,
             this_throwError = False, noteArray = ['''']\<rparr> [''n.noteable'' \<mapsto> []] ''k'' ''a=b'' =
     Inr (\<lparr>this_filePath = ''n.noteable'', this_notes = [], this_autoParse = False,
           this_throwError = False, noteArray = ['''', ''k=a=b'']\<rparr>,
          [''n.noteable'' \<mapsto> NL # ''k=a=b''])
   \<and> find (\<lambda>line. keyOf line = Some ''k'') ['''', ''k=a=b''] = Some ''k=a=b''
   \<and> parseInt ''k=a=b'' = None
   \<and> afterFirst CHR ''='' ''k=a=b'' = ''a=b''
   \<and> get (\<lambda>x. x) \<lparr>this_filePath = ''n.noteable'', this_notes = [], this_autoParse = False,
           this_throwError = False, noteArray = ['''', ''k=a=b'']\<rparr> ''k'' = Inr (Str ''a'')"
  by (simp add: afterFirst_def run_defs)

text \<open>
  C7, amended: let the first line whose portion before the first \<^verbatim>\<open>=\<close> is \<open>k\<close> exist and
  not be the empty line.  If \<^verbatim>\<open>parseInt\<close> of that line is above 1, \<^verbatim>\<open>get(k)\<close> raises
  \<open>DuplicateKey\<close> when \<^verbatim>\<open>throwError\<close> is on and returns \<^verbatim>\<open>undefined\<close> when it is off.
  Otherwise \<^verbatim>\<open>get(k)\<close> returns the second segment of the line split at \<^verbatim>\<open>=\<close>, auto-parsed
  when \<^verbatim>\<open>autoParse\<close> is on: that segment is the text between the first \<^verbatim>\<open>=\<close> and the next
  one or the end of the line, \<^verbatim>\<open>undefined\<close> when the line has no \<^verbatim>\<open>=\<close>, and the substring
  after the first \<^verbatim>\<open>=\<close> when the line has exactly one.
\<close>

theorem get_found_line:
  assumes found: "find (\<lambda>line. keyOf line = Some k) (noteArray this) = Some line"
    and nonempty: "line \<noteq> []"
  shows "(parsedAbove1 line \<longrightarrow>
            get ap this k = (if this_throwError this then Inl (DuplicateKey k) else Inr Undefined))
       \<and> (\<not> parsedAbove1 line \<longrightarrow>
            get ap this k = Inr (if this_autoParse this then Parsed (ap (valueOf line))
                                 else raw (valueOf line)))
       \<and> valueOf line =
            (if CHR ''='' \<in> set line
             then Some (beforeFirst CHR ''='' (afterFirst CHR ''='' line)) else None)
       \<and> (countEq line = 1 \<longrightarrow> valueOf line = Some (afterFirst CHR ''='' line))"
proof -
  have t: "truthy (find (\<lambda>line. keyOf line = Some k) (noteArray this))"
    using found nonempty by (simp add: truthy_def)
  have g: "get ap this k =
      (if parsedAbove1 line
       then (if this_throwError this then Inl (DuplicateKey k) else Inr Undefined)
       else Inr (if this_autoParse this then Parsed (ap (valueOf line)) else raw (valueOf line)))"
    using t found by (simp add: get_def keyCheck_def Let_def)
  have one: "valueOf line = Some (afterFirst CHR ''='' line)" if "countEq line = 1"
    using afterFirst_single [OF that]
    by (simp add: valueOf_segment beforeFirst_no_sep)
  show ?thesis using g one by (simp add: valueOf_segment)
qed

theorem get_found_line_witness:
  "find (\<lambda>line. keyOf line = Some ''7up'') [''7up=x'', ''n=1''] = Some ''7up=x''
   \<and> parsedAbove1 ''7up=x''
   \<and> get (\<lambda>x. x) \<lparr>this_filePath = ''n.noteable'', this_notes = [], this_autoParse = False,
           this_throwError = True, noteArray = [''7up=x'', ''n=1'']\<rparr> ''7up'' = Inl (DuplicateKey ''7up'')
   \<and> get (\<lambda>x. x) \<lparr>this_filePath = ''n.noteable'', this_notes = [], this_autoParse = False,
           this_throwError = False, noteArray = [''7up=x'', ''n=1'']\<rparr> ''7up'' = Inr Undefined
   \<and> find (\<lambda>line. keyOf line = Some ''n'') [''7up=x'', ''n=1''] = Some ''n=1''
   \<and> \<not> parsedAbove1 ''n=1'' \<and> countEq ''n=1'' = 1 \<and> afterFirst CHR ''='' ''n=1'' = ''1''
   \<and> get (\<lambda>x. x) \<lparr>this_filePath = ''n.noteable'', this_notes = [], this_autoParse = False,
           this_throwError = False, noteArray = [''7up=x'', ''n=1'']\<rparr> ''n'' = Inr (Str ''1'')"
proof -
  let ?T = "\<lparr>this_filePath = ''n.noteable'', this_notes = [], this_autoParse = False,
           this_throwError = True, noteArray = [''7up=x'', ''n=1'']\<rparr>"
  let ?S = "\<lparr>this_filePath = ''n.noteable'', this_notes = [], this_autoParse = False,
           this_throwError = False, noteArray = [''7up=x'', ''n=1'']\<rparr>"
  have f7: "find (\<lambda>line. keyOf line = Some ''7up'') [''7up=x'', ''n=1''] = Some ''7up=x''"
    by (simp add: keyOf_def at_def)
  have fn: "find (\<lambda>line. keyOf line = Some ''n'') [''7up=x'', ''n=1''] = Some ''n=1''"
    by (simp add: keyOf_def at_def)
  have p7: "parsedAbove1 ''7up=x''"
    by (simp add: run_defs)
  have pn: "\<not> parsedAbove1 ''n=1''"
    by (simp add: run_defs)
  have c: "countEq ''n=1'' = 1" by (simp add: countEq_def)
  have a: "afterFirst CHR ''='' ''n=1'' = ''1''" by (simp add: afterFirst_def)
  have "get (\<lambda>x. x) ?T ''7up'' = Inl (DuplicateKey ''7up'')"
    using get_found_line [of "''7up''" ?T "''7up=x''" "\<lambda>x. x"] f7 p7 by simp
  moreover have "get (\<lambda>x. x) ?S ''7up'' = Inr Undefined"
    using get_found_line [of "''7up''" ?S "''7up=x''" "\<lambda>x. x"] f7 p7 by simp
  moreover have "get (\<lambda>x. x) ?S ''n'' = Inr (Str ''1'')"
    using get_found_line [of "''n''" ?S "''n=1''" "\<lambda>x. x"] fn pn c a by (simp add: raw_def beforeFirst_def)
  ultimately show ?thesis using f7 fn p7 pn c a by simp
qed

subsection \<open>C8: \<^verbatim>\<open>change\<close>\<close>

text \<open>What \<^verbatim>\<open>change\<close> does: it raises \<open>KeyNotFound\<close> when \<^verbatim>\<open>has(k)\<close> is false and
  \<^verbatim>\<open>throwError\<close> is on; in every other case it returns the store as it was and writes to
  the file a copy of the sequence in which each line whose portion before the first \<^verbatim>\<open>=\<close>
  is \<open>k\<close> is, at its own position, the line \<^verbatim>\<open>k=v\<close>.\<close>

lemma change_written_file:
  "(\<not> has this k \<and> this_throwError this \<longrightarrow> change this fs k v = Inl (KeyNotFound k))
   \<and> (\<not> has this k \<and> \<not> this_throwError this \<longrightarrow> (\<exists>fs'. change this fs k v = Inr (this, fs')))
   \<and> ((\<forall>line\<in>set (noteArray this). beforeFirst CHR ''='' line \<noteq> k) \<and> \<not> this_throwError this \<longrightarrow>
        change this fs k v = Inr (this, fs(this_filePath this \<mapsto> join NL (noteArray this))))
   \<and> (has this k \<longrightarrow>
        (\<exists>data. change this fs k v = Inr (this, fs(this_filePath this \<mapsto> join NL data))
           \<and> length data = length (noteArray this)
           \<and> (\<forall>i<length data.
                 data ! i = (if beforeFirst CHR ''='' (noteArray this ! i) = k
                             then k @ CHR ''='' # v else noteArray this ! i))))"
proof -
  let ?data = "map (\<lambda>line. if keyOf line = Some k then k @ CHR ''='' # v else line) (noteArray this)"
  have kc: "keyCheck this k =
      (if \<not> has this k \<and> this_throwError this then Inl (KeyNotFound k) else Inr ())"
    by (simp add: keyCheck_def has_def)
  have pos: "length ?data = length (noteArray this)
      \<and> (\<forall>i<length ?data.
            ?data ! i = (if beforeFirst CHR ''='' (noteArray this ! i) = k
                         then k @ CHR ''='' # v else noteArray this ! i))"
    by (simp add: keyOf_beforeFirst)
  have same: "?data = noteArray this"
    if "\<forall>line\<in>set (noteArray this). beforeFirst CHR ''='' line \<noteq> k"
    using that by (simp add: keyOf_beforeFirst map_idI)
  have run: "change this fs k v = Inr (this, fs(this_filePath this \<mapsto> join NL ?data))"
    if "has this k \<or> \<not> this_throwError this"
    using that kc by (auto simp: change_def Let_def writeFileSync_def)
  have one: "\<not> has this k \<and> this_throwError this \<longrightarrow> change this fs k v = Inl (KeyNotFound k)"
    using kc by (simp add: change_def)
  have two: "\<not> has this k \<and> \<not> this_throwError this \<longrightarrow> (\<exists>fs'. change this fs k v = Inr (this, fs'))"
    using run by blast
  have three: "(\<forall>line\<in>set (noteArray this). beforeFirst CHR ''='' line \<noteq> k) \<and> \<not> this_throwError this \<longrightarrow>
        change this fs k v = Inr (this, fs(this_filePath this \<mapsto> join NL (noteArray this)))"
    using run same by auto
  have four: "has this k \<longrightarrow>
        (\<exists>data. change this fs k v = Inr (this, fs(this_filePath this \<mapsto> join NL data))
           \<and> length data = length (noteArray this)
           \<and> (\<forall>i<length data.
                 data ! i = (if beforeFirst CHR ''='' (noteArray this ! i) = k
                             then k @ CHR ''='' # v else noteArray this ! i)))"
    using run pos by blast
  from one two three four show ?thesis by blast
qed

text \<open>
  C8 at a concrete store.  The file holds \<^verbatim>\<open>years=2021\<close>, so the key \<^verbatim>\<open>years\<close> is present.
  \<^verbatim>\<open>change('years', '2022')\<close> writes \<^verbatim>\<open>years=2022\<close> to the file, but the sequence of the
  store after the call still holds the line \<^verbatim>\<open>years=2021\<close>: no line of it is replaced, and
  \<^verbatim>\<open>get('years')\<close> still returns \<^verbatim>\<open>2021\<close>.
\<close>

theorem change_leaves_sequence_stale:
  "constructor \<lparr>filePath = Some ''n.noteable'', autoParse = Some False, throwError = None\<rparr>
     [''n.noteable'' \<mapsto> ''years=2021''] =
     (Inr \<lparr>this_filePath = ''n.noteable'', this_notes = ''years=2021'', this_autoParse = False,
           this_throwError = False, noteArray = [''years=2021'']\<rparr>,
      [''n.noteable'' \<mapsto> ''years=2021''])
   \<and> has \<lparr>this_filePath = ''n.noteable'', this_notes = ''years=2021'', this_autoParse = False,
           this_throwError = False, noteArray = [''years=2021'']\<rparr> ''years'' = True
   \<and> (case change \<lparr>this_filePath = ''n.noteable'', this_notes = ''years=2021'',
           this_autoParse = False, this_throwError = False, noteArray = [''years=2021'']\<rparr>
           [''n.noteable'' \<mapsto> ''years=2021''] ''years'' ''2022'' of
         Inl e \<Rightarrow> False
       | Inr (this', fs') \<Rightarrow>
           fs' ''n.noteable'' = Some ''years=2022''
           \<and> noteArray this' = [''years=2021'']
           \<and> get (\<lambda>x. x) this' ''years'' = Inr (Str ''2021''))"
  by (simp add: run_defs)

subsection \<open>C9: \<^verbatim>\<open>remove\<close> writes from the text read at construction\<close>



subsection \<open>C10: the file created before the extension is checked\<close>

text \<open>
  C10: when the path the constructor works on (the one given, since the default path
  ends in \<^verbatim>\<open>.noteable\<close>) has no file and does not end in \<^verbatim>\<open>.noteable\<close>, the constructor
  throws the invalid-extension error and the file system it leaves has a new, empty file
  at that path.
\<close>

theorem constructor_creates_file_before_extension_error:
  assumes "\<not> existsSync fs (effectivePath st)"
    and "\<not> endsWith (effectivePath st) ''.noteable''"
  shows "constructor st fs =
           (Inl (InvalidExtension (effectivePath st)), fs(effectivePath st \<mapsto> []))
         \<and> filePath st = Some (effectivePath st)"
proof -
  have d: "endsWith defaultPath ''.noteable''"
    by (simp add: defaultPath_def endsWith_def)
  have "effectivePath st \<noteq> defaultPath"
    using assms(2) d by auto
  then have "filePath st = Some (effectivePath st)"
    by (auto simp: effectivePath_def split: option.splits if_splits)
  moreover have "constructor st fs =
      (Inl (InvalidExtension (effectivePath st)), fs(effectivePath st \<mapsto> []))"
    using assms by (simp add: constructor_def Let_def writeFileSync_def)
  ultimately show ?thesis by simp
qed

theorem constructor_creates_file_before_extension_error_witness:
  "\<not> existsSync Map.empty ''notes.txt'' \<and> \<not> endsWith ''notes.txt'' ''.noteable''
   \<and> constructor \<lparr>filePath = Some ''notes.txt'', autoParse = None, throwError = None\<rparr> Map.empty =
       (Inl (InvalidExtension ''notes.txt''), [''notes.txt'' \<mapsto> []])"
proof -
  let ?st = "\<lparr>filePath = Some ''notes.txt'', autoParse = None, throwError = None\<rparr>"
  have p: "effectivePath ?st = ''notes.txt''"
    by (simp add: effectivePath_def toLowerCase_def lowerChar_def)
  have a: "\<not> existsSync Map.empty (effectivePath ?st)"
    by (simp add: existsSync_def)
  have b: "\<not> endsWith (effectivePath ?st) ''.noteable''"
    by (simp add: p endsWith_def)
  show ?thesis
    using constructor_creates_file_before_extension_error [OF a b] a b by (simp add: p)
qed

end
